theory Spec2Isabelle
  imports Main "HOL-Library.Char_ord" "HOL-Library.List_Lexorder" "HOL-Library.Product_Lexorder"
    "HOL-Library.Multiset"
begin

section \<open>Task model (internal/models)\<close>

text \<open>
  \<^verbatim>\<open>type TaskStatus string\<close>: a status is any string; the seven constants below are the
  valid ones.
\<close>

type_synonym TaskStatus = string

definition TaskStatusQueued :: TaskStatus where "TaskStatusQueued = ''queued''"
definition TaskStatusRunning :: TaskStatus where "TaskStatusRunning = ''running''"
definition TaskStatusRetrying :: TaskStatus where "TaskStatusRetrying = ''retrying''"
definition TaskStatusNeedsReview :: TaskStatus where "TaskStatusNeedsReview = ''needs_review''"
definition TaskStatusSuccess :: TaskStatus where "TaskStatusSuccess = ''success''"
definition TaskStatusAborted :: TaskStatus where "TaskStatusAborted = ''aborted''"
definition TaskStatusError :: TaskStatus where "TaskStatusError = ''error''"

definition IsValid :: "TaskStatus \<Rightarrow> bool" where
  "IsValid ts \<longleftrightarrow>
     ts = TaskStatusQueued \<or> ts = TaskStatusRunning \<or> ts = TaskStatusRetrying \<or>
     ts = TaskStatusNeedsReview \<or> ts = TaskStatusSuccess \<or> ts = TaskStatusAborted \<or>
     ts = TaskStatusError"

definition IsTerminal :: "TaskStatus \<Rightarrow> bool" where
  "IsTerminal ts \<longleftrightarrow>
     ts = TaskStatusSuccess \<or> ts = TaskStatusAborted \<or> ts = TaskStatusError"

text \<open>
  The \<^verbatim>\<open>Task\<close> struct. \<^verbatim>\<open>Attempts\<close> is a Go \<^verbatim>\<open>int\<close>; no operation modelled here does
  arithmetic on it, so it is an unbounded integer. Timestamps are natural numbers (ticks of
  the clock), \<open>0\<close> standing for the zero \<^verbatim>\<open>time.Time\<close>.
\<close>

record Task =
  ID :: string
  Repo :: string
  Branch :: string
  ThreadID :: string
  Prompt :: string
  Status :: TaskStatus
  CIRunID :: "int option"
  Attempts :: int
  Summary :: string
  BranchURL :: string
  PRURL :: string
  CreatedAt :: nat
  UpdatedAt :: nat

text \<open>The zero value of the struct, as \<^verbatim>\<open>&Task{}\<close> builds it.\<close>

definition Task_zero :: Task where
  "Task_zero = \<lparr> ID = [], Repo = [], Branch = [], ThreadID = [], Prompt = [], Status = [],
     CIRunID = None, Attempts = 0, Summary = [], BranchURL = [], PRURL = [],
     CreatedAt = 0, UpdatedAt = 0 \<rparr>"

text \<open>
  Errors are values. \<open>Gorm\<close> holds the sentinel errors of the persistence library that the
  code compares against or returns; \<open>Errorf\<close> is \<^verbatim>\<open>fmt.Errorf\<close> with a finished message and
  \<open>Wrapf\<close> is \<^verbatim>\<open>fmt.Errorf("...: %w", err)\<close>; \<open>Panic\<close> is a run-time panic.
\<close>

datatype gorm_error = ErrRecordNotFound | ErrInvalidValue | ErrDuplicatedKey

datatype error = Gorm gorm_error | Errorf string | Wrapf string error | Panic

text \<open>
  \<^verbatim>\<open>err.Error()\<close>. The texts of the library's sentinel errors are not part of this
  repository; they are the parameter \<open>base\<close>. A panic is not an error value and no
  function here passes one to \<open>Error_text\<close>; its equation only makes the function total.
\<close>

fun Error_text :: "(gorm_error \<Rightarrow> string) \<Rightarrow> error \<Rightarrow> string" where
  "Error_text base (Gorm g) = base g"
| "Error_text base (Errorf s) = s"
| "Error_text base (Wrapf p e) = p @ Error_text base e"
| "Error_text base Panic = ''panic''"

definition BeforeCreate :: "Task \<Rightarrow> Task" where
  "BeforeCreate t = (if \<not> IsValid (Status t) then t\<lparr>Status := TaskStatusQueued\<rparr> else t)"

definition BeforeUpdate :: "Task \<Rightarrow> gorm_error option" where
  "BeforeUpdate t = (if \<not> IsValid (Status t) then Some ErrInvalidValue else None)"

text \<open>The transition table of \<^verbatim>\<open>CanTransitionTo\<close>, a Go map from a status to a slice.\<close>

definition validTransitions :: "TaskStatus \<rightharpoonup> TaskStatus list" where
  "validTransitions = map_of
     [(TaskStatusQueued, [TaskStatusRunning, TaskStatusAborted]),
      (TaskStatusRunning, [TaskStatusRetrying, TaskStatusNeedsReview, TaskStatusSuccess,
                           TaskStatusError, TaskStatusAborted]),
      (TaskStatusRetrying, [TaskStatusRunning, TaskStatusNeedsReview, TaskStatusError,
                            TaskStatusAborted]),
      (TaskStatusNeedsReview, [TaskStatusRunning, TaskStatusAborted])]"

definition CanTransitionTo :: "Task \<Rightarrow> TaskStatus \<Rightarrow> bool" where
  "CanTransitionTo t newStatus =
     (if IsTerminal (Status t) then newStatus = TaskStatusAborted
      else case validTransitions (Status t) of
             None \<Rightarrow> False
           | Some allowedStatuses \<Rightarrow> newStatus \<in> set allowedStatuses)"

text \<open>
  \<^verbatim>\<open>UpdateStatus\<close> mutates the task and returns an error; here it returns the error or the
  mutated task (on an error the task is as it was).
\<close>

definition UpdateStatus :: "Task \<Rightarrow> TaskStatus \<Rightarrow> error + Task" where
  "UpdateStatus t newStatus =
     (if \<not> CanTransitionTo t newStatus then Inl (Gorm ErrInvalidValue)
      else Inr (t\<lparr>Status := newStatus\<rparr>))"

definition IsRetryable :: "Task \<Rightarrow> int \<Rightarrow> bool" where
  "IsRetryable t maxRetries \<longleftrightarrow>
     Attempts t < maxRetries \<and>
     (Status t = TaskStatusError \<or> Status t = TaskStatusRetrying \<or>
      Status t = TaskStatusNeedsReview)"

section \<open>Formatting and parsing integers\<close>

text \<open>\<^verbatim>\<open>%d\<close> of \<^verbatim>\<open>fmt\<close>: the decimal digits, with a minus sign for a negative number.\<close>

fun nat_dec :: "nat \<Rightarrow> string" where
  "nat_dec n =
     (if n < 10 then [''0123456789'' ! n]
      else nat_dec (n div 10) @ [''0123456789'' ! (n mod 10)])"

declare nat_dec.simps [simp del]

definition itoa :: "int \<Rightarrow> string" where
  "itoa i = (if i < 0 then CHR ''-'' # nat_dec (nat (- i)) else nat_dec (nat i))"



section \<open>The task table (the persistence library as the services use it)\<close>

text \<open>
  The table \<^verbatim>\<open>tasks\<close> is the list of its rows, keyed by \<open>ID\<close>. The library runs the
  model's hooks: \<^verbatim>\<open>BeforeCreate\<close> on \<^verbatim>\<open>Create\<close> and \<^verbatim>\<open>BeforeUpdate\<close> on \<^verbatim>\<open>Save\<close>, where an
  error of the hook cancels the write. \<^verbatim>\<open>Save\<close> of a task whose primary key is the zero
  value (the empty string) is \<^verbatim>\<open>Create\<close>; otherwise it writes every field of the row with
  the task's primary key and inserts the task when there is no such row. \<open>now\<close> is the clock
  reading of the write (\<^verbatim>\<open>autoCreateTime\<close>, \<^verbatim>\<open>autoUpdateTime\<close>). Failures of the database itself other than a
  missing row and a repeated primary key are not modelled.
\<close>

type_synonym DB = "Task list"

definition db_First :: "DB \<Rightarrow> string \<Rightarrow> gorm_error + Task" where
  "db_First db tid =
     (case find (\<lambda>t. ID t = tid) db of None \<Rightarrow> Inl ErrRecordNotFound | Some t \<Rightarrow> Inr t)"

definition db_Create :: "DB \<Rightarrow> nat \<Rightarrow> Task \<Rightarrow> (gorm_error + Task) \<times> DB" where
  "db_Create db now t =
     (let t1 = BeforeCreate t
      in if ID t1 \<in> set (map ID db) then (Inl ErrDuplicatedKey, db)
         else (let t2 = t1\<lparr>CreatedAt := (if CreatedAt t1 = 0 then now else CreatedAt t1),
                           UpdatedAt := (if UpdatedAt t1 = 0 then now else UpdatedAt t1)\<rparr>
               in (Inr t2, db @ [t2])))"

definition db_Save :: "DB \<Rightarrow> nat \<Rightarrow> Task \<Rightarrow> gorm_error option \<times> DB" where
  "db_Save db now t =
     (if ID t = []
      then (case db_Create db now t of
              (Inl e, db') \<Rightarrow> (Some e, db')
            | (Inr t', db') \<Rightarrow> (None, db'))
      else (case BeforeUpdate t of
          Some e \<Rightarrow> (Some e, db)
        | None \<Rightarrow>
            (let t1 = t\<lparr>UpdatedAt := now\<rparr>
             in if ID t \<in> set (map ID db)
                then (None, map (\<lambda>r. if ID r = ID t then t1 else r) db)
                else (None, db @ [t1\<lparr>CreatedAt := (if CreatedAt t = 0 then now
                                                   else CreatedAt t)\<rparr>]))))"

section \<open>Task service (internal/services/task_service.go)\<close>

text \<open>
  Every operation takes the table and, when it writes, returns the new one. \<open>tid\<close> (the
  source's \<^verbatim>\<open>id\<close>) in \<open>CreateTask\<close> is the string that \<^verbatim>\<open>ulid.Make().String()\<close>
  returned; slicing it beyond its length panics. The second copy of the service, the one
  the handlers construct, has the same \<open>CreateTask\<close>, \<open>GetTask\<close>, \<open>ListTasks\<close> and
  \<open>UpdateTask\<close>.
\<close>

definition CreateTask :: "DB \<Rightarrow> nat \<Rightarrow> string \<Rightarrow> string \<Rightarrow> string \<Rightarrow> (error + Task) \<times> DB" where
  "CreateTask db now tid repo prompt =
     (if length tid < 6 then (Inl Panic, db)
      else let branch = ''amp/'' @ take 6 tid
      in if length tid < 8 then (Inl Panic, db)
      else let threadID = ''thread-'' @ take 8 tid;
               task = Task_zero\<lparr>ID := tid, Repo := repo, Branch := branch, ThreadID := threadID,
                        Prompt := prompt, Status := TaskStatusQueued, Attempts := 0\<rparr>
      in case db_Create db now task of
           (Inl e, db') \<Rightarrow> (Inl (Wrapf ''failed to create task: '' (Gorm e)), db')
         | (Inr task', db') \<Rightarrow> (Inr task', db'))"

definition GetTask :: "DB \<Rightarrow> string \<Rightarrow> error + Task" where
  "GetTask db tid =
     (case db_First db tid of
        Inl e \<Rightarrow> (if e = ErrRecordNotFound then Inl (Errorf ''task not found'')
                  else Inl (Wrapf ''failed to retrieve task: '' (Gorm e)))
      | Inr task \<Rightarrow> Inr task)"



text \<open>
  The \<^verbatim>\<open>switch\<close> of \<open>UpdateTask\<close>: \<open>Inl r\<close> is a \<^verbatim>\<open>return r\<close> inside it, \<open>Inr task\<close> the
  task it falls through with.
\<close>

definition UpdateTask_switch :: "Task \<Rightarrow> string \<Rightarrow> string \<Rightarrow> error option + Task" where
  "UpdateTask_switch task action prompt =
     (if action = ''continue'' then
        (if \<not> IsRetryable task 3
         then Inl (Some (Errorf (''task cannot be continued: status='' @ Status task @
                                  '', attempts='' @ itoa (Attempts task))))
         else let task1 = (if prompt \<noteq> [] then task\<lparr>Prompt := prompt\<rparr> else task)
              in case UpdateStatus task1 TaskStatusQueued of
                   Inl err \<Rightarrow> Inl (Some (Wrapf ''failed to update task status: '' err))
                 | Inr task2 \<Rightarrow> Inr task2)
      else if action = ''abort'' then
        (let update = (case UpdateStatus task TaskStatusAborted of
                         Inl err \<Rightarrow> Inl (Some (Wrapf ''failed to abort task: '' err))
                       | Inr task2 \<Rightarrow> Inr task2)
         in if IsTerminal (Status task) \<and> Status task \<noteq> TaskStatusAborted
            then (if Status task = TaskStatusSuccess then Inl None else update)
            else update)
      else Inl (Some (Errorf (''invalid action: '' @ action))))"

definition UpdateTask :: "DB \<Rightarrow> nat \<Rightarrow> string \<Rightarrow> string \<Rightarrow> string \<Rightarrow> error option \<times> DB" where
  "UpdateTask db now tid action prompt =
     (case GetTask db tid of
        Inl err \<Rightarrow> (Some err, db)
      | Inr task \<Rightarrow>
          (case UpdateTask_switch task action prompt of
             Inl r \<Rightarrow> (r, db)
           | Inr task' \<Rightarrow>
               (case db_Save db now task' of
                  (Some e, db') \<Rightarrow> (Some (Wrapf ''failed to save updated task: '' (Gorm e)), db')
                | (None, db') \<Rightarrow> (None, db'))))"

definition ValidatePrompt :: "string \<Rightarrow> error option" where
  "ValidatePrompt prompt =
     (if prompt = [] then Some (Errorf ''prompt cannot be empty'')
      else if length prompt > 10000 then Some (Errorf ''prompt too long (max 10000 characters)'')
      else None)"

text \<open>
  \<open>GetNextTask\<close> runs one query, \<^verbatim>\<open>WHERE status = 'queued' ORDER BY created_at ASC\<close> with
  the library's \<^verbatim>\<open>First\<close> (which orders by the primary key after that and takes one row),
  and writes nothing: the table it returns is the table it was given.
\<close>

definition GetNextTask :: "DB \<Rightarrow> (error + Task option) \<times> DB" where
  "GetNextTask db =
     (case sort_key (\<lambda>t. (CreatedAt t, ID t)) (filter (\<lambda>t. Status t = TaskStatusQueued) db) of
        [] \<Rightarrow> (Inr None, db)
      | task # _ \<Rightarrow> (Inr (Some task), db))"

definition UpdateTaskStatus :: "DB \<Rightarrow> nat \<Rightarrow> string \<Rightarrow> string \<Rightarrow> error option \<times> DB" where
  "UpdateTaskStatus db now taskID status =
     (case db_First db taskID of
        Inl e \<Rightarrow> (Some (Wrapf ''task not found: '' (Gorm e)), db)
      | Inr task \<Rightarrow>
          (case db_Save db now (task\<lparr>Status := status\<rparr>) of
             (Some e, db') \<Rightarrow> (Some (Wrapf ''failed to update task status: '' (Gorm e)), db')
           | (None, db') \<Rightarrow> (None, db')))"

definition UpdateTaskModel :: "DB \<Rightarrow> nat \<Rightarrow> Task \<Rightarrow> error option \<times> DB" where
  "UpdateTaskModel db now task =
     (case db_Save db now task of
        (Some e, db') \<Rightarrow> (Some (Wrapf ''failed to update task: '' (Gorm e)), db')
      | (None, db') \<Rightarrow> (None, db'))"

section \<open>HTTP handlers (package handlers)\<close>

text \<open>
  A response is its status code and JSON body; the request id that the bodies carry is
  left out.
\<close>

record TaskResponse =
  resp_ID :: string
  resp_Repo :: string
  resp_Branch :: string
  resp_ThreadID :: string
  resp_Prompt :: string
  resp_Status :: TaskStatus
  resp_CIRunID :: "int option"
  resp_Attempts :: int
  resp_Summary :: string
  resp_CreatedAt :: nat
  resp_UpdatedAt :: nat


datatype Response =
    JSON_ErrorResponse nat string string
  | JSON_ValidationErrorResponse nat string string
  | JSON_TaskListResponse nat "TaskResponse list" nat
  | Status_Only nat




text \<open>
  \<open>req\<close> is the decoded body \<open>(action, prompt)\<close>, \<open>None\<close> when the body is not JSON of that
  shape; the binding \<^verbatim>\<open>required,oneof=continue abort\<close> of the action is the second check.
\<close>

definition TaskHandler_UpdateTask ::
  "(gorm_error \<Rightarrow> string) \<Rightarrow> DB \<Rightarrow> nat \<Rightarrow> string \<Rightarrow> (string \<times> string) option \<Rightarrow> Response \<times> DB" where
  "TaskHandler_UpdateTask base db now tid req =
     (if tid = [] then (JSON_ErrorResponse 400 ''validation_error'' ''Task ID is required'', db)
      else case req of
        None \<Rightarrow> (JSON_ValidationErrorResponse 400 ''validation_error'' ''Invalid request payload'', db)
      | Some (action, prompt) \<Rightarrow>
          if action \<noteq> ''continue'' \<and> action \<noteq> ''abort''
          then (JSON_ValidationErrorResponse 400 ''validation_error'' ''Invalid request payload'', db)
          else (case (if action = ''continue'' \<and> prompt \<noteq> [] then ValidatePrompt prompt else None) of
              Some err \<Rightarrow>
                (JSON_ValidationErrorResponse 400 ''validation_error'' (Error_text base err), db)
            | None \<Rightarrow>
                (case UpdateTask db now tid action prompt of
                   (Some err, db') \<Rightarrow>
                     if Error_text base err = ''task not found''
                     then (JSON_ErrorResponse 404 ''not_found'' ''Task not found'', db')
                     else if Error_text base err
                               = ''task cannot be continued: status=success, attempts=3''
                             \<or> Error_text base err
                               = ''failed to update task status: invalid value''
                     then (JSON_ErrorResponse 409 ''conflict'' (Error_text base err), db')
                     else (JSON_ErrorResponse 500 ''update_error'' ''Failed to update task'', db')
                 | (None, db') \<Rightarrow> (Status_Only 204, db'))))"

section \<open>Branch names and identifiers\<close>

text \<open>
  The pattern of the specification, \<^verbatim>\<open>^amp/[a-z0-9]{6}$\<close>, and the same pattern with
  upper-case letters, \<^verbatim>\<open>^amp/[0-9A-Z]{6}$\<close>, as predicates on a whole string; the alphabet
  of the identifier library (Crockford's base 32) and the shape of an identifier it
  returns: 26 characters of that alphabet.
\<close>

definition is_lower_alnum :: "char \<Rightarrow> bool" where
  "is_lower_alnum c \<longleftrightarrow> (CHR ''a'' \<le> c \<and> c \<le> CHR ''z'') \<or> (CHR ''0'' \<le> c \<and> c \<le> CHR ''9'')"

definition is_upper_alnum :: "char \<Rightarrow> bool" where
  "is_upper_alnum c \<longleftrightarrow> (CHR ''0'' \<le> c \<and> c \<le> CHR ''9'') \<or> (CHR ''A'' \<le> c \<and> c \<le> CHR ''Z'')"

definition matches_amp_lower :: "string \<Rightarrow> bool" where
  "matches_amp_lower s \<longleftrightarrow>
     take 4 s = ''amp/'' \<and> length (drop 4 s) = 6 \<and> list_all is_lower_alnum (drop 4 s)"

definition matches_amp_upper :: "string \<Rightarrow> bool" where
  "matches_amp_upper s \<longleftrightarrow>
     take 4 s = ''amp/'' \<and> length (drop 4 s) = 6 \<and> list_all is_upper_alnum (drop 4 s)"

definition crockford :: string where
  "crockford = ''0123456789ABCDEFGHJKMNPQRSTVWXYZ''"

definition is_ulid :: "string \<Rightarrow> bool" where
  "is_ulid s \<longleftrightarrow> length s = 26 \<and> list_all (\<lambda>c. c \<in> set crockford) s"

section \<open>Runs of the service, the specification's table, example values\<close>

text \<open>
  A run of the service is a list of calls of the operations that write, \<open>CreateTask\<close>,
  \<open>UpdateTask\<close>, \<open>UpdateTaskStatus\<close> and \<open>UpdateTaskModel\<close>, with any arguments; each
  call leaves a table behind, whether it succeeds or fails. \<open>after_calls db cs\<close> is the
  table after the calls \<open>cs\<close>, started on \<open>db\<close>.
\<close>

datatype call =
    Call_CreateTask nat string string string
  | Call_UpdateTask nat string string string
  | Call_UpdateTaskStatus nat string string
  | Call_UpdateTaskModel nat Task

fun after_call :: "DB \<Rightarrow> call \<Rightarrow> DB" where
  "after_call db (Call_CreateTask now tid repo prompt) = snd (CreateTask db now tid repo prompt)"
| "after_call db (Call_UpdateTask now tid action prompt) =
     snd (UpdateTask db now tid action prompt)"
| "after_call db (Call_UpdateTaskStatus now tid status) =
     snd (UpdateTaskStatus db now tid status)"
| "after_call db (Call_UpdateTaskModel now task) = snd (UpdateTaskModel db now task)"

definition after_calls :: "DB \<Rightarrow> call list \<Rightarrow> DB" where
  "after_calls db cs = foldl after_call db cs"

definition statuses_valid :: "DB \<Rightarrow> bool" where
  "statuses_valid db \<longleftrightarrow> (\<forall>t \<in> set db. IsValid (Status t))"

text \<open>
  The table of permitted transitions as section 3.2 of the specification words it (not
  taken from the code): the rows for \<open>queued\<close>, \<open>running\<close>, \<open>retrying\<close> and
  \<open>needs_review\<close>, and for a terminal status only \<open>aborted\<close> to \<open>aborted\<close>.
\<close>

definition Spec_Table_Permits :: "TaskStatus \<Rightarrow> TaskStatus \<Rightarrow> bool" where
  "Spec_Table_Permits from to \<longleftrightarrow>
     (from = TaskStatusQueued \<and> to \<in> {TaskStatusRunning, TaskStatusAborted}) \<or>
     (from = TaskStatusRunning \<and>
        to \<in> {TaskStatusRetrying, TaskStatusNeedsReview, TaskStatusSuccess, TaskStatusError,
              TaskStatusAborted}) \<or>
     (from = TaskStatusRetrying \<and>
        to \<in> {TaskStatusRunning, TaskStatusQueued, TaskStatusNeedsReview, TaskStatusError,
              TaskStatusAborted}) \<or>
     (from = TaskStatusNeedsReview \<and> to \<in> {TaskStatusQueued, TaskStatusAborted}) \<or>
     (from = TaskStatusAborted \<and> to = TaskStatusAborted)"

text \<open>
  An identifier of the shape \<^verbatim>\<open>ulid.Make().String()\<close> returns (26 characters of Crockford's
  base 32: digits and upper-case letters), and a stored task with that identifier, as
  \<open>CreateTask\<close> stores it at clock reading 1, in a given status and with a given number of
  attempts.
\<close>

definition ex_id :: string where
  "ex_id = ''01ARZ3NDEKTSV4RRFFQ69G5FAV''"

definition ex_task :: "TaskStatus \<Rightarrow> int \<Rightarrow> Task" where
  "ex_task st n = Task_zero\<lparr>ID := ex_id, Repo := ''owner/repo'', Branch := ''amp/01ARZ3'',
     ThreadID := ''thread-01ARZ3ND'', Prompt := ''fix bug'', Status := st, Attempts := n,
     CreatedAt := 1, UpdatedAt := 1\<rparr>"




section \<open>Properties\<close>

lemmas status_defs =
  TaskStatusQueued_def TaskStatusRunning_def TaskStatusRetrying_def TaskStatusNeedsReview_def
  TaskStatusSuccess_def TaskStatusAborted_def TaskStatusError_def


subsection \<open>Shared lemmas: the table\<close>

lemma find_replace:
  "ID t1 = i \<Longrightarrow>
   find (\<lambda>t. ID t = j) (map (\<lambda>r. if ID r = i then t1 else r) db) =
     (if j = i then (if i \<in> set (map ID db) then Some t1 else None)
      else find (\<lambda>t. ID t = j) db)"
  by (induction db) auto

lemma find_append_new:
  "i \<notin> set (map ID db) \<Longrightarrow> ID t1 = i \<Longrightarrow>
   find (\<lambda>t. ID t = j) (db @ [t1]) = (if j = i then Some t1 else find (\<lambda>t. ID t = j) db)"
  by (induction db) auto

lemma find_ID_mem:
  "find (\<lambda>t. ID t = i) db = Some t \<Longrightarrow> ID t = i \<and> i \<in> set (map ID db) \<and> t \<in> set db"
  by (induction db) (auto split: if_splits)

lemma db_First_Inr:
  "db_First db i = Inr t \<Longrightarrow> ID t = i \<and> i \<in> set (map ID db) \<and> t \<in> set db"
  using find_ID_mem [of i db t] by (simp add: db_First_def split: option.splits)

lemma db_Save_invalid:
  "ID t \<noteq> [] \<Longrightarrow> \<not> IsValid (Status t) \<Longrightarrow> db_Save db now t = (Some ErrInvalidValue, db)"
  by (simp add: db_Save_def BeforeUpdate_def)

lemma db_Save_existing:
  "ID t \<noteq> [] \<Longrightarrow> IsValid (Status t) \<Longrightarrow> ID t \<in> set (map ID db) \<Longrightarrow>
   db_Save db now t = (None, map (\<lambda>r. if ID r = ID t then t\<lparr>UpdatedAt := now\<rparr> else r) db)"
  by (simp add: db_Save_def BeforeUpdate_def)

lemma db_Save_empty_key_stored:
  "ID t = [] \<Longrightarrow> [] \<in> set (map ID db) \<Longrightarrow> db_Save db now t = (Some ErrDuplicatedKey, db)"
  by (simp add: db_Save_def db_Create_def BeforeCreate_def Let_def)

subsection \<open>Shared lemmas: transitions\<close>

lemma UpdateStatus_Inr:
  "UpdateStatus t s = Inr t' \<Longrightarrow> CanTransitionTo t s \<and> t' = t\<lparr>Status := s\<rparr>"
  by (simp add: UpdateStatus_def split: if_splits)

lemma retryable_not_queued:
  "IsRetryable task m \<Longrightarrow> Status task' = Status task \<Longrightarrow>
   \<not> CanTransitionTo task' TaskStatusQueued"
  by (auto simp: IsRetryable_def CanTransitionTo_def IsTerminal_def validTransitions_def
                 status_defs)

lemma continue_switch_rejects:
  "\<exists>e. UpdateTask_switch task ''continue'' prompt = Inl (Some e)"
proof (cases "IsRetryable task 3")
  case False
  then show ?thesis by (simp add: UpdateTask_switch_def)
next
  case True
  then have "\<not> CanTransitionTo (if prompt \<noteq> [] then task\<lparr>Prompt := prompt\<rparr> else task)
               TaskStatusQueued"
    by (rule retryable_not_queued) simp
  with True show ?thesis by (simp add: UpdateTask_switch_def UpdateStatus_def Let_def)
qed

subsection \<open>The claims\<close>

text \<open>
  C1 (as the code has it): for a task in a terminal status, \<^verbatim>\<open>UpdateStatus\<close> accepts exactly
  the new status \<open>aborted\<close>, from each of the three terminal statuses, and then sets it;
  every other new status is rejected with \<open>ErrInvalidValue\<close>.
\<close>

theorem C1_terminal_only_to_aborted:
  assumes "IsTerminal (Status t)"
  shows "UpdateStatus t s =
           (if s = TaskStatusAborted then Inr (t\<lparr>Status := TaskStatusAborted\<rparr>)
            else Inl (Gorm ErrInvalidValue))"
  using assms by (simp add: UpdateStatus_def CanTransitionTo_def)

theorem C1_terminal_only_to_aborted_witness:
  "IsTerminal (Status (Task_zero\<lparr>Status := TaskStatusError\<rparr>)) \<and>
   UpdateStatus (Task_zero\<lparr>Status := TaskStatusError\<rparr>) TaskStatusRunning
     = Inl (Gorm ErrInvalidValue)"
  using C1_terminal_only_to_aborted [of "Task_zero\<lparr>Status := TaskStatusError\<rparr>" TaskStatusRunning]
  by (simp add: IsTerminal_def status_defs)

text \<open>
  C1 as stated fails: a task in status \<open>success\<close> is moved to \<open>aborted\<close> by
  \<^verbatim>\<open>UpdateStatus\<close>, with no error.
\<close>

theorem C1_success_to_aborted_accepted:
  "UpdateStatus (Task_zero\<lparr>Status := TaskStatusSuccess\<rparr>) TaskStatusAborted
     = Inr (Task_zero\<lparr>Status := TaskStatusAborted\<rparr>)"
  by (simp add: UpdateStatus_def CanTransitionTo_def IsTerminal_def)

text \<open>
  C2 (what the code does; the claim says the opposite): the \<open>continue\<close> action of
  \<open>UpdateTask\<close> never succeeds. Whatever the table, the identifier and the prompt, it
  returns an error and the table it was given: a task that \<open>IsRetryable\<close> accepts is in
  status \<open>error\<close>, \<open>retrying\<close> or \<open>needs_review\<close>, and \<open>CanTransitionTo\<close> permits none of
  them to go to \<open>queued\<close>.
\<close>

theorem C2_continue_never_succeeds:
  "\<exists>e. UpdateTask db now tid ''continue'' prompt = (Some e, db)"
proof (cases "GetTask db tid")
  case (Inl e)
  then show ?thesis by (simp add: UpdateTask_def)
next
  case (Inr task)
  obtain e where "UpdateTask_switch task ''continue'' prompt = Inl (Some e)"
    using continue_switch_rejects by blast
  with Inr show ?thesis by (simp add: UpdateTask_def)
qed

subsection \<open>Lemmas for C3: every write keeps the stored statuses valid\<close>

lemma db_Create_valid:
  "statuses_valid db \<Longrightarrow> db_Create db now t = (r, db') \<Longrightarrow> statuses_valid db'"
  by (auto simp: db_Create_def BeforeCreate_def statuses_valid_def Let_def IsValid_def
           split: if_splits)

lemma db_Save_valid:
  assumes "statuses_valid db" and "db_Save db now t = (e, db')"
  shows "statuses_valid db'"
proof (cases "ID t = []")
  case True
  with assms(2) obtain r where "db_Create db now t = (r, db')"
    by (cases "db_Create db now t") (auto simp: db_Save_def split: sum.splits)
  with assms(1) show ?thesis by (rule db_Create_valid)
next
  case False
  with assms show ?thesis
    by (auto simp: db_Save_def BeforeUpdate_def statuses_valid_def Let_def split: if_splits)
qed

lemma CreateTask_valid:
  "statuses_valid db \<Longrightarrow> CreateTask db now tid repo prompt = (r, db') \<Longrightarrow> statuses_valid db'"
  by (auto simp: CreateTask_def Let_def split: if_splits prod.splits sum.splits dest: db_Create_valid)

lemma UpdateTask_valid:
  "statuses_valid db \<Longrightarrow> UpdateTask db now tid action prompt = (e, db') \<Longrightarrow> statuses_valid db'"
  by (auto simp: UpdateTask_def split: sum.splits prod.splits option.splits dest: db_Save_valid)

lemma UpdateTaskStatus_valid:
  "statuses_valid db \<Longrightarrow> UpdateTaskStatus db now tid status = (e, db') \<Longrightarrow> statuses_valid db'"
  by (auto simp: UpdateTaskStatus_def split: sum.splits prod.splits option.splits dest: db_Save_valid)

lemma UpdateTaskModel_valid:
  "statuses_valid db \<Longrightarrow> UpdateTaskModel db now task = (e, db') \<Longrightarrow> statuses_valid db'"
  by (auto simp: UpdateTaskModel_def split: sum.splits prod.splits option.splits dest: db_Save_valid)

lemma after_call_valid: "statuses_valid db \<Longrightarrow> statuses_valid (after_call db c)"
proof (cases c)
  case (Call_CreateTask now tid repo prompt)
  assume "statuses_valid db"
  then show ?thesis
    using CreateTask_valid [of db now tid repo prompt] Call_CreateTask
    by (cases "CreateTask db now tid repo prompt") simp
next
  case (Call_UpdateTask now tid action prompt)
  assume "statuses_valid db"
  then show ?thesis
    using UpdateTask_valid [of db now tid action prompt] Call_UpdateTask
    by (cases "UpdateTask db now tid action prompt") simp
next
  case (Call_UpdateTaskStatus now tid status)
  assume "statuses_valid db"
  then show ?thesis
    using UpdateTaskStatus_valid [of db now tid status] Call_UpdateTaskStatus
    by (cases "UpdateTaskStatus db now tid status") simp
next
  case (Call_UpdateTaskModel now task)
  assume "statuses_valid db"
  then show ?thesis
    using UpdateTaskModel_valid [of db now task] Call_UpdateTaskModel
    by (cases "UpdateTaskModel db now task") simp
qed

lemma after_calls_valid: "statuses_valid db \<Longrightarrow> statuses_valid (after_calls db cs)"
  unfolding after_calls_def
  by (induction cs arbitrary: db) (simp_all add: after_call_valid)

lemma CanTransitionTo_vs_spec:
  "CanTransitionTo t s \<longleftrightarrow>
     (Spec_Table_Permits (Status t) s \<and> s \<noteq> TaskStatusQueued) \<or>
     (IsTerminal (Status t) \<and> s = TaskStatusAborted) \<or>
     (Status t = TaskStatusNeedsReview \<and> s = TaskStatusRunning)"
  unfolding CanTransitionTo_def validTransitions_def Spec_Table_Permits_def IsTerminal_def status_defs
  by (auto split: if_splits)

lemma switch_Inr_abort:
  assumes "UpdateTask_switch task action prompt = Inr task'"
  shows "task' = task\<lparr>Status := TaskStatusAborted\<rparr> \<and> CanTransitionTo task TaskStatusAborted \<and>
         Status task \<noteq> TaskStatusSuccess"
proof (cases "action = ''continue''")
  case True
  with assms continue_switch_rejects [of task prompt] show ?thesis by auto
next
  case False
  with assms show ?thesis
    by (auto simp: UpdateTask_switch_def Let_def IsTerminal_def status_defs
             split: if_splits sum.splits dest!: UpdateStatus_Inr)
qed

lemma abort_change_vs_spec:
  assumes "CanTransitionTo t TaskStatusAborted" and "Status t \<noteq> TaskStatusSuccess"
      and "Status t \<noteq> TaskStatusAborted"
  shows "Spec_Table_Permits (Status t) TaskStatusAborted \<or> Status t = TaskStatusError"
  using assms unfolding CanTransitionTo_vs_spec by (auto simp: IsTerminal_def status_defs)

lemma UpdateTask_change:
  assumes "UpdateTask db now tid action prompt = (e, db')"
      and "db_First db j = Inr t" and "db_First db' j = Inr t'" and "Status t' \<noteq> Status t"
  shows "Spec_Table_Permits (Status t) (Status t') \<or>
         (Status t = TaskStatusError \<and> Status t' = TaskStatusAborted)"
proof (cases "GetTask db tid")
  case (Inl err)
  with assms show ?thesis by (simp add: UpdateTask_def)
next
  case (Inr task)
  then have first: "db_First db tid = Inr task"
    by (simp add: GetTask_def split: sum.splits if_splits)
  from db_First_Inr [OF first]
  have idt: "ID task = tid" and mem: "tid \<in> set (map ID db)" by simp_all
  show ?thesis
  proof (cases "UpdateTask_switch task action prompt")
    case (Inl r)
    with Inr assms show ?thesis by (simp add: UpdateTask_def)
  next
    case sw: (Inr task2)
    from switch_Inr_abort [OF sw]
    have t2: "task2 = task\<lparr>Status := TaskStatusAborted\<rparr>"
      and can: "CanTransitionTo task TaskStatusAborted"
      and ns: "Status task \<noteq> TaskStatusSuccess" by simp_all
    from t2 idt have id2: "ID task2 = tid" by simp
    from t2 have v2: "IsValid (Status task2)" by (simp add: IsValid_def)
    show ?thesis
    proof (cases "tid = []")
      case True
      with id2 mem have "db_Save db now task2 = (Some ErrDuplicatedKey, db)"
        by (simp add: db_Save_empty_key_stored)
      with assms(1) Inr sw have "db' = db" by (simp add: UpdateTask_def)
      with assms(2,3,4) show ?thesis by simp
    next
      case False
      with id2 v2 mem have save: "db_Save db now task2
          = (None, map (\<lambda>r. if ID r = tid then task2\<lparr>UpdatedAt := now\<rparr> else r) db)"
        using db_Save_existing [of task2 db now] by simp
      from assms(1) Inr sw save
      have db': "db' = map (\<lambda>r. if ID r = tid then task2\<lparr>UpdatedAt := now\<rparr> else r) db"
        by (simp add: UpdateTask_def)
      have look: "find (\<lambda>t. ID t = j) db' =
          (if j = tid then Some (task2\<lparr>UpdatedAt := now\<rparr>) else find (\<lambda>t. ID t = j) db)"
        unfolding db' using find_replace [of "task2\<lparr>UpdatedAt := now\<rparr>" tid j db] mem id2
        by simp
      show ?thesis
      proof (cases "j = tid")
        case True
        with look assms(3) have t': "t' = task2\<lparr>UpdatedAt := now\<rparr>"
          by (simp add: db_First_def split: option.splits)
        from True assms(2) first have t: "t = task" by simp
        from t' t2 have st': "Status t' = TaskStatusAborted" by simp
        with assms(4) t have "Status task \<noteq> TaskStatusAborted" by simp
        with abort_change_vs_spec [OF can ns] st' t show ?thesis by auto
      next
        case False
        with look assms(2,3) have "t' = t" by (simp add: db_First_def split: option.splits)
        with assms(4) show ?thesis by simp
      qed
    qed
  qed
qed

lemma find_append_Some:
  "find P xs = Some x \<Longrightarrow> find P (xs @ ys) = Some x"
  by (induction xs) (auto split: if_splits)

lemma db_First_append:
  "db_First db j = Inr t \<Longrightarrow> db_First (db @ rows) j = Inr t"
  using find_append_Some [of "\<lambda>t. ID t = j" db t rows]
  by (simp add: db_First_def split: option.splits)

lemma CreateTask_keeps_rows:
  assumes "CreateTask db now tid repo prompt = (r, db')" and "db_First db j = Inr t"
  shows "db_First db' j = Inr t"
proof -
  from assms(1) have "db' = db \<or> (\<exists>task. db' = db @ [task])"
    by (auto simp: CreateTask_def db_Create_def Let_def split: if_splits)
  with assms(2) show ?thesis using db_First_append by auto
qed

lemma CreateTask_ex:
  "CreateTask [] 1 ex_id ''owner/repo'' ''fix bug''
     = (Inr (ex_task TaskStatusQueued 0), [ex_task TaskStatusQueued 0])"
  by (simp add: CreateTask_def db_Create_def BeforeCreate_def IsValid_def ex_id_def ex_task_def
        Task_zero_def Let_def)

lemma UpdateTask_abort_ex:
  "UpdateTask [ex_task TaskStatusQueued 0] 2 ex_id ''abort'' [] =
     (None, [(ex_task TaskStatusQueued 0)\<lparr>Status := TaskStatusAborted, UpdatedAt := 2\<rparr>])"
  by (simp add: UpdateTask_def GetTask_def db_First_def UpdateTask_switch_def UpdateStatus_def
        CanTransitionTo_def IsTerminal_def validTransitions_def db_Save_def BeforeUpdate_def
        IsValid_def ex_task_def ex_id_def Task_zero_def status_defs)

lemma UpdateTaskStatus_running_ex:
  "UpdateTaskStatus [ex_task TaskStatusQueued 0] 3 ex_id TaskStatusRunning =
     (None, [(ex_task TaskStatusQueued 0)\<lparr>Status := TaskStatusRunning, UpdatedAt := 3\<rparr>])"
  by (simp add: UpdateTaskStatus_def db_First_def db_Save_def BeforeUpdate_def
        IsValid_def ex_task_def ex_id_def Task_zero_def status_defs)

text \<open>
  C3 (as the code has it): in the table after any run of calls from the empty table, each
  stored task's status is one of the seven values. A further call changes stored statuses
  as follows: \<open>CreateTask\<close> changes none; every change made by \<open>UpdateTask\<close> (the
  \<open>continue\<close> and \<open>abort\<close> actions) is a transition of the table of section 3.2 or is
  \<open>error\<close> to \<open>aborted\<close>; a change made by any operation, so also by \<open>UpdateTaskStatus\<close>
  and \<open>UpdateTaskModel\<close>, which consult no table, is to one of the seven values.
\<close>

theorem C3_statuses_valid_and_status_changes:
  "(\<forall>t \<in> set (after_calls [] cs). IsValid (Status t)) \<and>
   (\<forall>now tid repo prompt j t.
      db_First (after_calls [] cs) j = Inr t
      \<longrightarrow> db_First (after_call (after_calls [] cs) (Call_CreateTask now tid repo prompt)) j
            = Inr t) \<and>
   (\<forall>now tid action prompt j t t'.
      db_First (after_calls [] cs) j = Inr t \<and>
      db_First (after_call (after_calls [] cs) (Call_UpdateTask now tid action prompt)) j
        = Inr t' \<and>
      Status t' \<noteq> Status t
      \<longrightarrow> Spec_Table_Permits (Status t) (Status t') \<or>
          (Status t = TaskStatusError \<and> Status t' = TaskStatusAborted)) \<and>
   (\<forall>c j t t'.
      db_First (after_calls [] cs) j = Inr t \<and>
      db_First (after_call (after_calls [] cs) c) j = Inr t' \<and> Status t' \<noteq> Status t
      \<longrightarrow> IsValid (Status t'))"
proof (intro conjI allI impI)
  have v: "statuses_valid (after_calls [] cs)"
    by (rule after_calls_valid) (simp add: statuses_valid_def)
  then show "\<forall>t \<in> set (after_calls [] cs). IsValid (Status t)"
    by (simp add: statuses_valid_def)
  fix c j t t'
  assume "db_First (after_calls [] cs) j = Inr t \<and>
          db_First (after_call (after_calls [] cs) c) j = Inr t' \<and> Status t' \<noteq> Status t"
  then have "t' \<in> set (after_call (after_calls [] cs) c)"
    using db_First_Inr by blast
  moreover have "statuses_valid (after_call (after_calls [] cs) c)"
    using v by (rule after_call_valid)
  ultimately show "IsValid (Status t')" by (simp add: statuses_valid_def)
next
  fix now tid repo prompt j t
  assume a: "db_First (after_calls [] cs) j = Inr t"
  obtain r db' where c: "CreateTask (after_calls [] cs) now tid repo prompt = (r, db')"
    by (cases "CreateTask (after_calls [] cs) now tid repo prompt")
  from CreateTask_keeps_rows [OF c a] c
  show "db_First (after_call (after_calls [] cs) (Call_CreateTask now tid repo prompt)) j
          = Inr t"
    by simp
next
  fix now tid action prompt j t t'
  assume a: "db_First (after_calls [] cs) j = Inr t \<and>
      db_First (after_call (after_calls [] cs) (Call_UpdateTask now tid action prompt)) j
        = Inr t' \<and>
      Status t' \<noteq> Status t"
  obtain e db' where u: "UpdateTask (after_calls [] cs) now tid action prompt = (e, db')"
    by (cases "UpdateTask (after_calls [] cs) now tid action prompt")
  with a have "db_First db' j = Inr t'" by simp
  with u a show "Spec_Table_Permits (Status t) (Status t') \<or>
          (Status t = TaskStatusError \<and> Status t' = TaskStatusAborted)"
    using UpdateTask_change by blast
qed

theorem C3_statuses_valid_and_status_changes_witness:
  "after_calls [] [Call_CreateTask 1 ex_id ''owner/repo'' ''fix bug'']
     = [ex_task TaskStatusQueued 0] \<and>
   IsValid (Status (ex_task TaskStatusQueued 0)) \<and>
   db_First [ex_task TaskStatusQueued 0] ex_id = Inr (ex_task TaskStatusQueued 0) \<and>
   db_First (after_call [ex_task TaskStatusQueued 0]
               (Call_CreateTask 5 ''01BX5ZZKBKACTAV9WEVGEMMVRZ'' ''owner/other'' ''add'')) ex_id
     = Inr (ex_task TaskStatusQueued 0) \<and>
   after_call [ex_task TaskStatusQueued 0] (Call_UpdateTask 2 ex_id ''abort'' [])
     = [(ex_task TaskStatusQueued 0)\<lparr>Status := TaskStatusAborted, UpdatedAt := 2\<rparr>] \<and>
   Spec_Table_Permits TaskStatusQueued TaskStatusAborted \<and>
   after_call [ex_task TaskStatusQueued 0] (Call_UpdateTaskStatus 3 ex_id TaskStatusRunning)
     = [(ex_task TaskStatusQueued 0)\<lparr>Status := TaskStatusRunning, UpdatedAt := 3\<rparr>] \<and>
   IsValid TaskStatusRunning"
proof -
  let ?q = "ex_task TaskStatusQueued 0"
  have r: "after_calls [] [Call_CreateTask 1 ex_id ''owner/repo'' ''fix bug''] = [?q]"
    using CreateTask_ex by (simp add: after_calls_def)
  have ca: "after_call [?q] (Call_UpdateTask 2 ex_id ''abort'' [])
              = [?q\<lparr>Status := TaskStatusAborted, UpdatedAt := 2\<rparr>]"
    using UpdateTask_abort_ex by simp
  have cr: "after_call [?q] (Call_UpdateTaskStatus 3 ex_id TaskStatusRunning)
              = [?q\<lparr>Status := TaskStatusRunning, UpdatedAt := 3\<rparr>]"
    using UpdateTaskStatus_running_ex by simp
  have f0: "db_First [?q] ex_id = Inr ?q"
    by (simp add: db_First_def ex_task_def)
  have fa: "db_First [?q\<lparr>Status := TaskStatusAborted, UpdatedAt := 2\<rparr>] ex_id
            = Inr (?q\<lparr>Status := TaskStatusAborted, UpdatedAt := 2\<rparr>)"
    by (simp add: db_First_def ex_task_def)
  have fr: "db_First [?q\<lparr>Status := TaskStatusRunning, UpdatedAt := 3\<rparr>] ex_id
            = Inr (?q\<lparr>Status := TaskStatusRunning, UpdatedAt := 3\<rparr>)"
    by (simp add: db_First_def ex_task_def)
  have sq: "Status ?q = TaskStatusQueued" by (simp add: ex_task_def)
  have ne: "TaskStatusAborted \<noteq> TaskStatusQueued" "TaskStatusRunning \<noteq> TaskStatusQueued"
    "TaskStatusQueued \<noteq> TaskStatusError"
    by (simp_all add: status_defs)
  note inst = C3_statuses_valid_and_status_changes
    [of "[Call_CreateTask 1 ex_id ''owner/repo'' ''fix bug'']", unfolded r]
  from inst have v: "IsValid (Status ?q)" by simp
  from inst f0
  have k: "db_First (after_call [?q]
               (Call_CreateTask 5 ''01BX5ZZKBKACTAV9WEVGEMMVRZ'' ''owner/other'' ''add'')) ex_id
     = Inr ?q"
    by blast
  from inst have "db_First [?q] ex_id = Inr ?q \<and>
      db_First (after_call [?q] (Call_UpdateTaskStatus 3 ex_id TaskStatusRunning)) ex_id
        = Inr (?q\<lparr>Status := TaskStatusRunning, UpdatedAt := 3\<rparr>) \<and>
      Status (?q\<lparr>Status := TaskStatusRunning, UpdatedAt := 3\<rparr>) \<noteq> Status ?q
      \<longrightarrow> IsValid (Status (?q\<lparr>Status := TaskStatusRunning, UpdatedAt := 3\<rparr>))"
    by blast
  with f0 fr cr sq ne have vr: "IsValid TaskStatusRunning" by simp
  from inst have "db_First [?q] ex_id = Inr ?q \<and>
      db_First (after_call [?q] (Call_UpdateTask 2 ex_id ''abort'' [])) ex_id
        = Inr (?q\<lparr>Status := TaskStatusAborted, UpdatedAt := 2\<rparr>) \<and>
      Status (?q\<lparr>Status := TaskStatusAborted, UpdatedAt := 2\<rparr>) \<noteq> Status ?q
      \<longrightarrow> Spec_Table_Permits (Status ?q)
            (Status (?q\<lparr>Status := TaskStatusAborted, UpdatedAt := 2\<rparr>)) \<or>
          (Status ?q = TaskStatusError \<and>
           Status (?q\<lparr>Status := TaskStatusAborted, UpdatedAt := 2\<rparr>) = TaskStatusAborted)"
    by blast
  with f0 fa ca sq ne have sp: "Spec_Table_Permits TaskStatusQueued TaskStatusAborted" by simp
  from r v f0 k ca sp cr vr show ?thesis by blast
qed

text \<open>
  C3 as stated fails twice: the \<open>abort\<close> action of \<open>UpdateTask\<close> moves a stored task from
  \<open>error\<close> to \<open>aborted\<close>, and \<open>UpdateTaskStatus\<close> moves a stored task from \<open>success\<close> to
  \<open>running\<close>; the table of section 3.2 has neither transition.
\<close>

theorem C3_changes_outside_the_table_counterexample:
  "UpdateTask [ex_task TaskStatusError 0] 2 ex_id ''abort'' [] =
     (None, [(ex_task TaskStatusError 0)\<lparr>Status := TaskStatusAborted, UpdatedAt := 2\<rparr>]) \<and>
   \<not> Spec_Table_Permits TaskStatusError TaskStatusAborted \<and>
   UpdateTaskStatus [ex_task TaskStatusSuccess 0] 2 ex_id TaskStatusRunning =
     (None, [(ex_task TaskStatusSuccess 0)\<lparr>Status := TaskStatusRunning, UpdatedAt := 2\<rparr>]) \<and>
   \<not> Spec_Table_Permits TaskStatusSuccess TaskStatusRunning"
  by (simp add: UpdateTask_def GetTask_def db_First_def UpdateTask_switch_def UpdateStatus_def
        UpdateTaskStatus_def CanTransitionTo_def IsTerminal_def db_Save_def BeforeUpdate_def
        IsValid_def Spec_Table_Permits_def ex_task_def ex_id_def Task_zero_def status_defs)

subsection \<open>Lemmas for C5: the decimal text of a number\<close>

lemma digit_cases:
  "(n :: nat) < 10 \<Longrightarrow> n \<in> {0, 1, 2, 3, 4, 5, 6, 7, 8, 9}"
  by auto

lemma nat_dec_small: "n < 10 \<Longrightarrow> nat_dec n = [''0123456789'' ! n]"
  by (simp add: nat_dec.simps)

lemma nat_dec_length_ge2: "10 \<le> n \<Longrightarrow> 2 \<le> length (nat_dec n)"
proof -
  assume a: "10 \<le> n"
  have "1 \<le> length (nat_dec m)" for m
    by (subst nat_dec.simps) simp
  then have "1 \<le> length (nat_dec (n div 10))" .
  with a show ?thesis by (subst nat_dec.simps) simp
qed

lemma digit_3: "n < 10 \<Longrightarrow> ''0123456789'' ! n = CHR ''3'' \<longleftrightarrow> n = 3"
proof -
  assume "n < 10"
  then have "n \<in> {0, 1, 2, 3, 4, 5, 6, 7, 8, 9}" by (rule digit_cases)
  then show ?thesis by auto
qed

lemma nat_dec_3: "nat_dec n = ''3'' \<longleftrightarrow> n = 3"
proof (cases "n < 10")
  case True
  then show ?thesis by (simp add: nat_dec_small digit_3)
next
  case False
  then have "2 \<le> length (nat_dec n)" by (simp add: nat_dec_length_ge2)
  with False show ?thesis by auto
qed

lemma itoa_3: "itoa i = ''3'' \<longleftrightarrow> i = 3"
proof (cases "i < 0")
  case True
  then show ?thesis by (simp add: itoa_def)
next
  case False
  then show ?thesis by (auto simp: itoa_def nat_dec_3)
qed

text \<open>
  C5 (what the code does; the claim says \<open>Conflict\<close> for every such task): \<open>continue\<close> on a
  stored task in status \<open>success\<close>, with a prompt of at most 10000 characters, leaves the
  table unchanged, and the handler answers 409 \<open>conflict\<close> when the task has exactly 3
  attempts and 500 \<open>update_error\<close> for every other number of attempts, whatever the texts of
  the library's errors: it compares the service's message with one that ends in
  \<open>attempts=3\<close>.
\<close>

theorem C5_continue_on_success_conflict_only_at_3:
  assumes "db_First db tid = Inr task" and "Status task = TaskStatusSuccess"
      and "tid \<noteq> []" and "length prompt \<le> 10000"
  shows "TaskHandler_UpdateTask base db now tid (Some (''continue'', prompt)) =
           (if Attempts task = 3
            then JSON_ErrorResponse 409 ''conflict''
                   ''task cannot be continued: status=success, attempts=3''
            else JSON_ErrorResponse 500 ''update_error'' ''Failed to update task'',
            db)"
proof -
  have g: "GetTask db tid = Inr task" using assms(1) by (simp add: GetTask_def)
  have nr: "\<not> IsRetryable task 3" using assms(2) by (simp add: IsRetryable_def status_defs)
  have sw: "UpdateTask_switch task ''continue'' prompt =
      Inl (Some (Errorf (''task cannot be continued: status=success, attempts='' @ itoa (Attempts task))))"
    using nr assms(2) by (simp add: UpdateTask_switch_def status_defs)
  have u: "UpdateTask db now tid ''continue'' prompt =
      (Some (Errorf (''task cannot be continued: status=success, attempts='' @ itoa (Attempts task))), db)"
    using g sw by (simp add: UpdateTask_def)
  have vp: "(if ''continue'' = ''continue'' \<and> prompt \<noteq> [] then ValidatePrompt prompt else None) = None"
    using assms(4) by (simp add: ValidatePrompt_def)
  show ?thesis
    using assms(3) vp u
    by (simp add: TaskHandler_UpdateTask_def itoa_3)
qed

theorem C5_continue_on_success_conflict_only_at_3_witness:
  "db_First [ex_task TaskStatusSuccess 0] ex_id = Inr (ex_task TaskStatusSuccess 0) \<and>
   Status (ex_task TaskStatusSuccess 0) = TaskStatusSuccess \<and> ex_id \<noteq> [] \<and>
   length ([] :: string) \<le> 10000 \<and> Attempts (ex_task TaskStatusSuccess 0) = 0 \<and>
   TaskHandler_UpdateTask (\<lambda>_. []) [ex_task TaskStatusSuccess 0] 5 ex_id (Some (''continue'', []))
     = (JSON_ErrorResponse 500 ''update_error'' ''Failed to update task'',
        [ex_task TaskStatusSuccess 0])"
proof -
  have f: "db_First [ex_task TaskStatusSuccess 0] ex_id = Inr (ex_task TaskStatusSuccess 0)"
    by (simp add: db_First_def ex_task_def)
  have s: "Status (ex_task TaskStatusSuccess 0) = TaskStatusSuccess" by (simp add: ex_task_def)
  have a: "Attempts (ex_task TaskStatusSuccess 0) = 0" by (simp add: ex_task_def)
  have i: "ex_id \<noteq> []" by (simp add: ex_id_def)
  have l: "length ([] :: string) \<le> 10000" by simp
  from C5_continue_on_success_conflict_only_at_3 [OF f s i l, of "\<lambda>_. []" 5] a
  have r: "TaskHandler_UpdateTask (\<lambda>_. []) [ex_task TaskStatusSuccess 0] 5 ex_id (Some (''continue'', []))
     = (JSON_ErrorResponse 500 ''update_error'' ''Failed to update task'',
        [ex_task TaskStatusSuccess 0])"
    by simp
  from f s i l a r show ?thesis by blast
qed

subsection \<open>Lemmas for C4: the head of a sorted list\<close>

lemma sort_key_head_least:
  assumes "sort_key f xs = y # ys"
  shows "y \<in> set xs \<and> (\<forall>x \<in> set xs. f y \<le> f x)"
proof -
  have "set (sort_key f xs) = set xs" by simp
  with assms have s: "set xs = insert y (set ys)" by simp
  have "sorted (map f (sort_key f xs))" by (rule sorted_sort_key)
  with assms have "\<forall>x \<in> set ys. f y \<le> f x" by simp
  with s show ?thesis by auto
qed

lemma pair_le_fst: "(a :: nat, b :: string) \<le> (c, d) \<Longrightarrow> a \<le> c"
  by (auto simp: less_eq_prod_def)

lemma GetNextTask_ex:
  "GetNextTask [ex_task TaskStatusQueued 0] = (Inr (Some (ex_task TaskStatusQueued 0)), [ex_task TaskStatusQueued 0])"
  by (simp add: GetNextTask_def ex_task_def)

text \<open>
  C4 (as the code has it): \<open>GetNextTask\<close> writes nothing. When no stored task is in status
  \<open>queued\<close> it returns no task and no error. Otherwise it returns a stored task in status
  \<open>queued\<close> whose creation time is least among the queued ones; the returned task is still
  \<open>queued\<close> and the table is the one it was given.
\<close>

theorem C4_GetNextTask_oldest_queued_no_write:
  "(\<not> (\<exists>t \<in> set db. Status t = TaskStatusQueued) \<longrightarrow> GetNextTask db = (Inr None, db)) \<and>
   ((\<exists>t \<in> set db. Status t = TaskStatusQueued) \<longrightarrow>
      (\<exists>task. GetNextTask db = (Inr (Some task), db) \<and> task \<in> set db \<and>
              Status task = TaskStatusQueued \<and>
              (\<forall>u \<in> set db. Status u = TaskStatusQueued \<longrightarrow> CreatedAt task \<le> CreatedAt u)))"
proof (intro conjI impI)
  assume "\<not> (\<exists>t \<in> set db. Status t = TaskStatusQueued)"
  then have "filter (\<lambda>t. Status t = TaskStatusQueued) db = []"
    by (simp add: filter_empty_conv)
  then show "GetNextTask db = (Inr None, db)" by (simp add: GetNextTask_def)
next
  let ?q = "filter (\<lambda>t. Status t = TaskStatusQueued) db"
  let ?f = "\<lambda>t. (CreatedAt t, ID t)"
  assume "\<exists>t \<in> set db. Status t = TaskStatusQueued"
  then have "set (sort_key ?f ?q) \<noteq> {}" by auto
  then obtain task rest where s: "sort_key ?f ?q = task # rest"
    by (cases "sort_key ?f ?q") auto
  from sort_key_head_least [OF s]
  have mem: "task \<in> set ?q" and least: "\<forall>x \<in> set ?q. ?f task \<le> ?f x" by simp_all
  from s have "GetNextTask db = (Inr (Some task), db)" by (simp add: GetNextTask_def)
  moreover from mem have "task \<in> set db" and "Status task = TaskStatusQueued" by simp_all
  moreover have "\<forall>u \<in> set db. Status u = TaskStatusQueued \<longrightarrow> CreatedAt task \<le> CreatedAt u"
    using least pair_le_fst by fastforce
  ultimately show "\<exists>task. GetNextTask db = (Inr (Some task), db) \<and> task \<in> set db \<and>
              Status task = TaskStatusQueued \<and>
              (\<forall>u \<in> set db. Status u = TaskStatusQueued \<longrightarrow> CreatedAt task \<le> CreatedAt u)"
    by blast
qed

theorem C4_GetNextTask_oldest_queued_no_write_witness:
  "(\<exists>t \<in> set [ex_task TaskStatusQueued 0]. Status t = TaskStatusQueued) \<and>
   GetNextTask [ex_task TaskStatusQueued 0]
     = (Inr (Some (ex_task TaskStatusQueued 0)), [ex_task TaskStatusQueued 0]) \<and>
   \<not> (\<exists>t \<in> set [ex_task TaskStatusRunning 0]. Status t = TaskStatusQueued) \<and>
   GetNextTask [ex_task TaskStatusRunning 0] = (Inr None, [ex_task TaskStatusRunning 0])"
proof -
  have q: "\<exists>t \<in> set [ex_task TaskStatusQueued 0]. Status t = TaskStatusQueued"
    by (simp add: ex_task_def)
  have n: "\<not> (\<exists>t \<in> set [ex_task TaskStatusRunning 0]. Status t = TaskStatusQueued)"
    by (simp add: ex_task_def status_defs)
  from C4_GetNextTask_oldest_queued_no_write [of "[ex_task TaskStatusQueued 0]"] q
  have a: "GetNextTask [ex_task TaskStatusQueued 0]
     = (Inr (Some (ex_task TaskStatusQueued 0)), [ex_task TaskStatusQueued 0])"
    by auto
  from C4_GetNextTask_oldest_queued_no_write [of "[ex_task TaskStatusRunning 0]"] n
  have b: "GetNextTask [ex_task TaskStatusRunning 0] = (Inr None, [ex_task TaskStatusRunning 0])"
    by blast
  from q a n b show ?thesis by blast
qed

text \<open>
  C4 as stated fails: on a table with one queued task, \<open>GetNextTask\<close> returns that task in
  status \<open>queued\<close>, not \<open>running\<close>, and the table still holds it as \<open>queued\<close>.
\<close>

theorem C4_returned_task_still_queued_counterexample:
  "GetNextTask [ex_task TaskStatusQueued 0]
     = (Inr (Some (ex_task TaskStatusQueued 0)), [ex_task TaskStatusQueued 0]) \<and>
   Status (ex_task TaskStatusQueued 0) = TaskStatusQueued \<and>
   TaskStatusQueued \<noteq> TaskStatusRunning"
  using GetNextTask_ex by (simp add: ex_task_def status_defs)

text \<open>
  C6: for a stored task in status \<open>aborted\<close> (its identifier is not empty), the \<open>abort\<close>
  action of \<open>UpdateTask\<close> returns no error, and the stored task afterwards is the same task
  with a new \<open>UpdatedAt\<close>: its status is still \<open>aborted\<close>.
\<close>

theorem C6_abort_on_aborted:
  assumes "db_First db tid = Inr task" and "Status task = TaskStatusAborted" and "tid \<noteq> []"
  shows "fst (UpdateTask db now tid ''abort'' prompt) = None \<and>
         db_First (snd (UpdateTask db now tid ''abort'' prompt)) tid
           = Inr (task\<lparr>UpdatedAt := now\<rparr>) \<and>
         Status (task\<lparr>UpdatedAt := now\<rparr>) = TaskStatusAborted"
proof -
  from db_First_Inr [OF assms(1)] have idt: "ID task = tid" and mem: "tid \<in> set (map ID db)"
    by simp_all
  have g: "GetTask db tid = Inr task" using assms(1) by (simp add: GetTask_def)
  have same: "task\<lparr>Status := TaskStatusAborted\<rparr> = task" using assms(2) by simp
  have sw: "UpdateTask_switch task ''abort'' prompt = Inr task"
    using assms(2) same
    by (simp add: UpdateTask_switch_def UpdateStatus_def CanTransitionTo_def IsTerminal_def)
  have "IsValid (Status task)" using assms(2) by (simp add: IsValid_def)
  then have save: "db_Save db now task
      = (None, map (\<lambda>r. if ID r = tid then task\<lparr>UpdatedAt := now\<rparr> else r) db)"
    using db_Save_existing [of task db now] mem idt assms(3) by simp
  have u: "UpdateTask db now tid ''abort'' prompt
      = (None, map (\<lambda>r. if ID r = tid then task\<lparr>UpdatedAt := now\<rparr> else r) db)"
    using g sw save by (simp add: UpdateTask_def)
  have look: "db_First (map (\<lambda>r. if ID r = tid then task\<lparr>UpdatedAt := now\<rparr> else r) db) tid
      = Inr (task\<lparr>UpdatedAt := now\<rparr>)"
    using find_replace [of "task\<lparr>UpdatedAt := now\<rparr>" tid tid db] mem idt
    by (simp add: db_First_def)
  show ?thesis using u look assms(2) by simp
qed

theorem C6_abort_on_aborted_witness:
  "db_First [ex_task TaskStatusAborted 0] ex_id = Inr (ex_task TaskStatusAborted 0) \<and>
   Status (ex_task TaskStatusAborted 0) = TaskStatusAborted \<and> ex_id \<noteq> [] \<and>
   fst (UpdateTask [ex_task TaskStatusAborted 0] 4 ex_id ''abort'' []) = None \<and>
   db_First (snd (UpdateTask [ex_task TaskStatusAborted 0] 4 ex_id ''abort'' [])) ex_id
     = Inr ((ex_task TaskStatusAborted 0)\<lparr>UpdatedAt := 4\<rparr>)"
proof -
  have f: "db_First [ex_task TaskStatusAborted 0] ex_id = Inr (ex_task TaskStatusAborted 0)"
    by (simp add: db_First_def ex_task_def)
  have s: "Status (ex_task TaskStatusAborted 0) = TaskStatusAborted" by (simp add: ex_task_def)
  have i: "ex_id \<noteq> []" by (simp add: ex_id_def)
  from C6_abort_on_aborted [OF f s i, of 4 "[]"] f s i show ?thesis by blast
qed

subsection \<open>Lemmas for C7 and C8: what CreateTask stores\<close>

lemma CreateTask_Inr:
  assumes "CreateTask db now tid repo prompt = (Inr task, db')"
  shows "8 \<le> length tid \<and> tid \<notin> set (map ID db) \<and>
         task = Task_zero\<lparr>ID := tid, Repo := repo, Branch := ''amp/'' @ take 6 tid,
                  ThreadID := ''thread-'' @ take 8 tid, Prompt := prompt,
                  Status := TaskStatusQueued, Attempts := 0, CreatedAt := now, UpdatedAt := now\<rparr> \<and>
         db' = db @ [task]"
  using assms
  by (auto simp: CreateTask_def db_Create_def BeforeCreate_def IsValid_def Task_zero_def Let_def
           split: if_splits)

lemma CreateTask_succeeds:
  assumes "8 \<le> length tid" and "tid \<notin> set (map ID db)"
  shows "\<exists>task. CreateTask db now tid repo prompt = (Inr task, db @ [task])"
  using assms
  by (auto simp: CreateTask_def db_Create_def BeforeCreate_def IsValid_def Task_zero_def Let_def)

lemma crockford_upper: "c \<in> set crockford \<Longrightarrow> is_upper_alnum c"
  by (auto simp: crockford_def is_upper_alnum_def less_eq_char_def)

lemma is_ulid_ex: "is_ulid ex_id"
  by (simp add: is_ulid_def ex_id_def crockford_def)

text \<open>
  C7: \<open>CreateTask\<close> succeeds for an identifier of at least 8 characters that is not yet in
  the table; and whenever it returns a task, \<open>GetTask\<close> on the new table with the returned
  task's \<open>ID\<close> gives that task, whose repo and prompt are the ones passed in, whose status
  is \<open>queued\<close> and whose attempts are 0.
\<close>

theorem C7_create_then_get:
  "(8 \<le> length tid \<and> tid \<notin> set (map ID db) \<longrightarrow>
      (\<exists>task db'. CreateTask db now tid repo prompt = (Inr task, db'))) \<and>
   (\<forall>task db'. CreateTask db now tid repo prompt = (Inr task, db') \<longrightarrow>
      GetTask db' (ID task) = Inr task \<and> Repo task = repo \<and> Prompt task = prompt \<and>
      Status task = TaskStatusQueued \<and> Attempts task = 0)"
proof (intro conjI allI impI)
  assume "8 \<le> length tid \<and> tid \<notin> set (map ID db)"
  then show "\<exists>task db'. CreateTask db now tid repo prompt = (Inr task, db')"
    using CreateTask_succeeds [of tid db now repo prompt] by blast
next
  fix task db'
  assume a: "CreateTask db now tid repo prompt = (Inr task, db')"
  from CreateTask_Inr [OF a]
  have new: "tid \<notin> set (map ID db)" and db': "db' = db @ [task]"
    and t: "task = Task_zero\<lparr>ID := tid, Repo := repo, Branch := ''amp/'' @ take 6 tid,
                  ThreadID := ''thread-'' @ take 8 tid, Prompt := prompt,
                  Status := TaskStatusQueued, Attempts := 0, CreatedAt := now, UpdatedAt := now\<rparr>"
    by simp_all
  from t have idt: "ID task = tid" by simp
  have "find (\<lambda>t. ID t = tid) (db @ [task]) = Some task"
    using find_append_new [OF new idt, of tid] by simp
  then show "GetTask db' (ID task) = Inr task"
    by (simp add: GetTask_def db_First_def db' idt)
  from t show "Repo task = repo" by simp
  from t show "Prompt task = prompt" by simp
  from t show "Status task = TaskStatusQueued" by simp
  from t show "Attempts task = 0" by simp
qed

theorem C7_create_then_get_witness:
  "8 \<le> length ex_id \<and> ex_id \<notin> set (map ID []) \<and>
   CreateTask [] 1 ex_id ''owner/repo'' ''fix bug''
     = (Inr (ex_task TaskStatusQueued 0), [ex_task TaskStatusQueued 0]) \<and>
   GetTask [ex_task TaskStatusQueued 0] (ID (ex_task TaskStatusQueued 0)) = Inr (ex_task TaskStatusQueued 0) \<and>
   Repo (ex_task TaskStatusQueued 0) = ''owner/repo'' \<and>
   Prompt (ex_task TaskStatusQueued 0) = ''fix bug'' \<and>
   Status (ex_task TaskStatusQueued 0) = TaskStatusQueued \<and>
   Attempts (ex_task TaskStatusQueued 0) = 0"
  using C7_create_then_get [of ex_id "[]" 1 "''owner/repo''" "''fix bug''"] CreateTask_ex
  by (simp add: ex_id_def)

text \<open>
  C8 (as the code has it): the branch of a created task is \<open>amp/\<close> followed by the first 6
  characters of its identifier, and these are exactly 6 characters; when the identifier has
  the shape the identifier library returns (digits and upper-case letters), the branch
  matches \<^verbatim>\<open>^amp/[0-9A-Z]{6}$\<close>.
\<close>

theorem C8_branch_from_id:
  assumes "CreateTask db now tid repo prompt = (Inr task, db')"
  shows "Branch task = ''amp/'' @ take 6 (ID task) \<and> length (take 6 (ID task)) = 6 \<and>
         (is_ulid (ID task) \<longrightarrow> matches_amp_upper (Branch task))"
proof -
  from CreateTask_Inr [OF assms]
  have len: "8 \<le> length tid"
    and t: "task = Task_zero\<lparr>ID := tid, Repo := repo, Branch := ''amp/'' @ take 6 tid,
                  ThreadID := ''thread-'' @ take 8 tid, Prompt := prompt,
                  Status := TaskStatusQueued, Attempts := 0, CreatedAt := now, UpdatedAt := now\<rparr>"
    by simp_all
  from t have idt: "ID task = tid" and br: "Branch task = ''amp/'' @ take 6 tid" by simp_all
  have up: "list_all is_upper_alnum (take 6 tid)" if "is_ulid tid"
  proof -
    from that have "\<forall>c \<in> set tid. c \<in> set crockford" by (simp add: is_ulid_def list_all_iff)
    then have "\<forall>c \<in> set (take 6 tid). is_upper_alnum c"
      using crockford_upper by (meson in_set_takeD)
    then show ?thesis by (simp add: list_all_iff)
  qed
  from len have l6: "length (take 6 tid) = 6" by simp
  show ?thesis using br idt l6 up by (simp add: matches_amp_upper_def)
qed

theorem C8_branch_from_id_witness:
  "CreateTask [] 1 ex_id ''owner/repo'' ''fix bug''
     = (Inr (ex_task TaskStatusQueued 0), [ex_task TaskStatusQueued 0]) \<and>
   is_ulid (ID (ex_task TaskStatusQueued 0)) \<and>
   Branch (ex_task TaskStatusQueued 0) = ''amp/01ARZ3'' \<and>
   matches_amp_upper (Branch (ex_task TaskStatusQueued 0))"
proof -
  have u: "is_ulid (ID (ex_task TaskStatusQueued 0))"
    using is_ulid_ex by (simp add: ex_task_def)
  have b: "Branch (ex_task TaskStatusQueued 0) = ''amp/01ARZ3''"
    by (simp add: ex_task_def)
  from C8_branch_from_id [OF CreateTask_ex] u
  have m: "matches_amp_upper (Branch (ex_task TaskStatusQueued 0))" by blast
  from CreateTask_ex u b m show ?thesis by blast
qed

text \<open>
  C8 as stated fails: for the identifier \<open>01ARZ3NDEKTSV4RRFFQ69G5FAV\<close> the branch is
  \<open>amp/01ARZ3\<close>, which has upper-case letters and does not match \<^verbatim>\<open>^amp/[a-z0-9]{6}$\<close>.
\<close>

theorem C8_upper_case_branch_counterexample:
  "CreateTask [] 1 ''01ARZ3NDEKTSV4RRFFQ69G5FAV'' ''owner/repo'' ''fix bug''
     = (Inr (ex_task TaskStatusQueued 0), [ex_task TaskStatusQueued 0]) \<and>
   Branch (ex_task TaskStatusQueued 0) = ''amp/01ARZ3'' \<and>
   \<not> matches_amp_lower (Branch (ex_task TaskStatusQueued 0))"
proof -
  have b: "Branch (ex_task TaskStatusQueued 0) = ''amp/01ARZ3''"
    by (simp add: ex_task_def)
  have n: "\<not> matches_amp_lower ''amp/01ARZ3''"
    by (simp add: matches_amp_lower_def is_lower_alnum_def less_eq_char_def)
  from CreateTask_ex b n show ?thesis by (simp add: ex_id_def)
qed

subsection \<open>Lemmas for C9: parsing at the edge of the range, the example table\<close>












text \<open>
  C10: for a stored task (its identifier is not empty), \<open>UpdateTaskStatus\<close> with any of the
  seven valid status values returns no error and replaces the stored status by it, whatever
  the current status and without a look at \<open>CanTransitionTo\<close>; with any other value it
  returns the save's error and leaves the table as it was.
\<close>

theorem C10_UpdateTaskStatus_overwrites:
  assumes "db_First db tid = Inr task" and "tid \<noteq> []"
  shows "UpdateTaskStatus db now tid status =
           (if IsValid status
            then (None, map (\<lambda>r. if ID r = tid then task\<lparr>Status := status, UpdatedAt := now\<rparr> else r) db)
            else (Some (Wrapf ''failed to update task status: '' (Gorm ErrInvalidValue)), db)) \<and>
         (IsValid status \<longrightarrow>
            db_First (snd (UpdateTaskStatus db now tid status)) tid
              = Inr (task\<lparr>Status := status, UpdatedAt := now\<rparr>))"
proof -
  from db_First_Inr [OF assms(1)] have idt: "ID task = tid" and mem: "tid \<in> set (map ID db)"
    by simp_all
  have eq: "UpdateTaskStatus db now tid status =
           (if IsValid status
            then (None, map (\<lambda>r. if ID r = tid then task\<lparr>Status := status, UpdatedAt := now\<rparr> else r) db)
            else (Some (Wrapf ''failed to update task status: '' (Gorm ErrInvalidValue)), db))"
  proof (cases "IsValid status")
    case True
    then show ?thesis
      using db_Save_existing [of "task\<lparr>Status := status\<rparr>" db now] mem idt assms(1,2)
      by (simp add: UpdateTaskStatus_def)
  next
    case False
    then show ?thesis
      using db_Save_invalid [of "task\<lparr>Status := status\<rparr>" db now] idt assms(1,2)
      by (simp add: UpdateTaskStatus_def)
  qed
  have look: "db_First (snd (UpdateTaskStatus db now tid status)) tid
              = Inr (task\<lparr>Status := status, UpdatedAt := now\<rparr>)" if "IsValid status"
    using that eq find_replace [of "task\<lparr>Status := status, UpdatedAt := now\<rparr>" tid tid db] mem idt
    by (simp add: db_First_def)
  from eq look show ?thesis by blast
qed

theorem C10_UpdateTaskStatus_overwrites_witness:
  "db_First [ex_task TaskStatusSuccess 0] ex_id = Inr (ex_task TaskStatusSuccess 0) \<and>
   ex_id \<noteq> [] \<and> IsValid TaskStatusRunning \<and>
   \<not> CanTransitionTo (ex_task TaskStatusSuccess 0) TaskStatusRunning \<and>
   UpdateTaskStatus [ex_task TaskStatusSuccess 0] 9 ex_id TaskStatusRunning
     = (None, [(ex_task TaskStatusSuccess 0)\<lparr>Status := TaskStatusRunning, UpdatedAt := 9\<rparr>]) \<and>
   \<not> IsValid ''completed'' \<and>
   UpdateTaskStatus [ex_task TaskStatusSuccess 0] 9 ex_id ''completed''
     = (Some (Wrapf ''failed to update task status: '' (Gorm ErrInvalidValue)),
        [ex_task TaskStatusSuccess 0])"
proof -
  have f: "db_First [ex_task TaskStatusSuccess 0] ex_id = Inr (ex_task TaskStatusSuccess 0)"
    by (simp add: db_First_def ex_task_def)
  have i: "ex_id \<noteq> []" by (simp add: ex_id_def)
  have v: "IsValid TaskStatusRunning" by (simp add: IsValid_def)
  have nv: "\<not> IsValid ''completed''" by (simp add: IsValid_def status_defs)
  have nc: "\<not> CanTransitionTo (ex_task TaskStatusSuccess 0) TaskStatusRunning"
    by (simp add: CanTransitionTo_def IsTerminal_def ex_task_def status_defs)
  have idx: "ID (ex_task TaskStatusSuccess 0) = ex_id" by (simp add: ex_task_def)
  from C10_UpdateTaskStatus_overwrites [OF f i, of 9 TaskStatusRunning] v idx
  have a: "UpdateTaskStatus [ex_task TaskStatusSuccess 0] 9 ex_id TaskStatusRunning
     = (None, [(ex_task TaskStatusSuccess 0)\<lparr>Status := TaskStatusRunning, UpdatedAt := 9\<rparr>])"
    by simp
  from C10_UpdateTaskStatus_overwrites [OF f i, of 9 "''completed''"] nv
  have b: "UpdateTaskStatus [ex_task TaskStatusSuccess 0] 9 ex_id ''completed''
     = (Some (Wrapf ''failed to update task status: '' (Gorm ErrInvalidValue)),
        [ex_task TaskStatusSuccess 0])"
    by simp
  from f i v nc a nv b show ?thesis by blast
qed

end
